theory Spec2Isabelle
  imports Main "HOL-Library.Sublist"
begin

section \<open>Machine integers of the Go program\<close>

text \<open>
  \<open>time.Duration\<close> is an \<open>int64\<close> count of nanoseconds and \<open>int\<close> is 64 bits wide on
  the platforms the program targets. Both are modelled as \<open>int\<close> with the two's-complement
  wrap-around written out after every addition and multiplication.
\<close>

type_synonym Duration = int

definition wrap64 :: "int \<Rightarrow> int" where
  "wrap64 x = (x + 2 ^ 63) mod 2 ^ 64 - 2 ^ 63"

text \<open>
  Go's \<open>/\<close> on integers truncates towards zero. Both divisions of the program are guarded by
  a test that the divisor is positive, so the run-time panic of a zero divisor is not reachable.
\<close>

definition quo :: "int \<Rightarrow> int \<Rightarrow> int" where
  "quo a b = wrap64 (sgn a * sgn b * (\<bar>a\<bar> div \<bar>b\<bar>))"

definition Nanosecond :: Duration where "Nanosecond = 1"
definition Millisecond :: Duration where "Millisecond = 1000000 * Nanosecond"
definition Second :: Duration where "Second = 1000 * Millisecond"
definition Minute :: Duration where "Minute = 60 * Second"
definition Hour :: Duration where "Hour = 60 * Minute"

section \<open>Errors\<close>

text \<open>
  A Go \<open>error\<close> value: the two sentinels of package \<open>context\<close>, an error with a plain
  message, and the wrapping error that \<open>fmt.Errorf\<close> builds for a \<open>%w\<close> verb (its own
  message and the error it wraps). \<open>nil\<close> is \<open>None\<close> of \<open>error option\<close>.
\<close>

datatype error =
    DeadlineExceeded
  | Canceled
  | ErrorString string
  | WrapError string error

fun Error_msg :: "error \<Rightarrow> string" where
  "Error_msg DeadlineExceeded = ''context deadline exceeded''"
| "Error_msg Canceled = ''context canceled''"
| "Error_msg (ErrorString s) = s"
| "Error_msg (WrapError s e) = s"

text \<open>\<open>errors.Is\<close>: the error itself or one on its chain of wrapped errors is the target.\<close>

fun errors_Is :: "error \<Rightarrow> error \<Rightarrow> bool" where
  "errors_Is (WrapError s e) target = (WrapError s e = target \<or> errors_Is e target)"
| "errors_Is e target = (e = target)"

text \<open>\<open>fmt.Errorf("%w; %v", err, e)\<close>\<close>

definition Errorf_w_v :: "error \<Rightarrow> error \<Rightarrow> error" where
  "Errorf_w_v err e = WrapError (Error_msg err @ ''; '' @ Error_msg e) err"

section \<open>Data model\<close>

record Query =
  SQL :: string

text \<open>
  \<open>ExecStats\<close> of the launcher. The fields \<open>Min\<close> and \<open>Max\<close> carry a suffix, the plain
  names being constants of the logic.
\<close>

record ExecStats =
  Min_d :: Duration
  Avg :: Duration
  Max_d :: Duration
  Count :: int
  Error :: "error option"

text \<open>The zero value \<open>ExecStats{}\<close>.\<close>

definition ExecStats_zero :: ExecStats where
  "ExecStats_zero = \<lparr>Min_d = 0, Avg = 0, Max_d = 0, Count = 0, Error = None\<rparr>"

text \<open>
  \<open>QueryExecInfo\<close> as \<open>ToExecInfo\<close> fills it. The floating-point field \<open>QPS\<close> and the
  fields the database assigns (\<open>ID\<close>, \<open>CreatedAt\<close>) are left out.
\<close>

record QueryExecInfo =
  Query :: string
  IsFailed :: bool
  Conns :: int
  Comment :: string
  Info :: ExecStats

definition ToExecInfo :: "ExecStats \<Rightarrow> string \<Rightarrow> int \<Rightarrow> QueryExecInfo" where
  "ToExecInfo s query conns =
     (let failed = (Error s \<noteq> None \<or> Count s = 0 \<or> Avg s = 0);
          comment = (case Error s of
                       Some e \<Rightarrow> ''error: '' @ Error_msg e
                     | None \<Rightarrow> if Count s = 0 \<or> Avg s = 0 then ''timeout'' else ''ok'')
      in \<lparr>Query = query, IsFailed = failed, Conns = conns, Comment = comment, Info = s\<rparr>)"

section \<open>One worker: executeAndMeasure\<close>

text \<open>
  What the outside world does during one call of \<open>executeAndMeasure\<close>: the result of
  \<open>pgx.Connect\<close>, and what each turn of the measuring loop observes. A turn either finds
  \<open>ctx.Done()\<close> ready, or runs \<open>conn.Exec\<close>, which returns \<open>nil\<close> after a measured time
  or returns an error. The context carries a deadline, so the list of turns is finite: after
  its last element the deadline has passed and \<open>ctx.Done()\<close> is ready.
\<close>

datatype event =
    CtxDone
  | ExecOk Duration
  | ExecErr error

record worker =
  connect :: "error option"
  events :: "event list"

text \<open>
  The loop labelled \<open>loop\<close>. \<open>Inl\<close> is the \<open>return stats\<close> inside the loop, \<open>Inr\<close> is
  \<open>break loop\<close> with the statistics and the running sum.
\<close>

fun measure_loop :: "event list \<Rightarrow> ExecStats \<Rightarrow> Duration \<Rightarrow> ExecStats + ExecStats \<times> Duration" where
  "measure_loop [] stats tsum = Inr (stats, tsum)"
| "measure_loop (CtxDone # evs) stats tsum = Inr (stats, tsum)"
| "measure_loop (ExecErr err # evs) stats tsum =
     (if errors_Is err DeadlineExceeded \<or> errors_Is err Canceled
      then Inr (stats, tsum)
      else Inl (stats\<lparr>Error := Some err\<rparr>))"
| "measure_loop (ExecOk elapsed # evs) stats tsum =
     measure_loop evs
       (stats\<lparr>Count := wrap64 (Count stats + 1),
              Min_d := min (Min_d stats) elapsed,
              Max_d := max (Max_d stats) elapsed\<rparr>)
       (wrap64 (tsum + elapsed))"

definition executeAndMeasure :: "worker \<Rightarrow> ExecStats" where
  "executeAndMeasure w =
     (case connect w of
        Some err \<Rightarrow> ExecStats_zero\<lparr>Error := Some err\<rparr>
      | None \<Rightarrow>
          (case measure_loop (events w) \<lparr>Min_d = Hour, Avg = 0, Max_d = 0, Count = 0, Error = None\<rparr> 0 of
             Inl stats \<Rightarrow> stats
           | Inr (stats, tsum) \<Rightarrow>
               if Count stats > 0 then stats\<lparr>Avg := quo tsum (Count stats)\<rparr> else stats))"

section \<open>Fan-out and the aggregation of one ramp step\<close>

text \<open>
  \<open>multi.RunMany\<close> starts \<open>n\<close> workers and waits for all of them; each sends its result on
  the channel \<open>ch\<close>, whose buffer holds \<open>n\<close> elements. The argument \<open>f i\<close> is the world of
  the worker whose result is the \<open>i\<close>-th to arrive; the value is the content of the channel.
\<close>

definition RunMany :: "int \<Rightarrow> (nat \<Rightarrow> worker) \<Rightarrow> ExecStats list" where
  "RunMany n f = map (\<lambda>i. executeAndMeasure (f i)) [0..<nat n]"

text \<open>The local variables of the receiving loop of \<open>Launcher.Run\<close>.\<close>

record collector =
  c_errors :: "error list"
  c_sts :: "ExecStats list"
  c_sum :: Duration
  c_count :: int

fun collect :: "ExecStats list \<Rightarrow> collector \<Rightarrow> collector" where
  "collect [] c = c"
| "collect (st # ch) c =
     (let c1 = c\<lparr>c_sts := c_sts c @ [st]\<rparr>;
          c2 = (if Count st > 0
                then c1\<lparr>c_sum := wrap64 (c_sum c1 + Avg st), c_count := wrap64 (c_count c1 + 1)\<rparr>
                else c1);
          c3 = (case Error st of
                  Some e \<Rightarrow> c2\<lparr>c_errors := c_errors c2 @ [e]\<rparr>
                | None \<Rightarrow> c2)
      in collect ch c3)"

text \<open>Joining the collected errors into one.\<close>

definition join_errors :: "error list \<Rightarrow> error option" where
  "join_errors errs =
     (case errs of
        [] \<Rightarrow> None
      | e0 # rest \<Rightarrow> Some (foldl Errorf_w_v e0 rest))"

text \<open>The body of one ramp iteration after the fan-out: from the channel to the new \<open>stats\<close>.\<close>

definition merge_step :: "ExecStats list \<Rightarrow> ExecStats" where
  "merge_step ch =
     (let c = collect ch \<lparr>c_errors = [], c_sts = [], c_sum = 0, c_count = 0\<rparr>;
          tsum = (if c_count c > 0
                   then quo (quo (c_sum c) (c_count c)) (c_count c)
                   else c_sum c)
      in \<lparr>Min_d = 0, Avg = tsum, Max_d = 0, Count = c_count c, Error = join_errors (c_errors c)\<rparr>)"

section \<open>Launcher.Run\<close>

text \<open>
  The world of one call of \<open>Run\<close>: the baseline worker, and for ramp iteration \<open>iter\<close> the
  workers in the order in which their results arrive. The value of \<open>Run\<close> is the returned
  statistics together with the records handed to \<open>SaveQueryExecInfo\<close>, in program order.
\<close>

record world =
  baseline :: worker
  ramp :: "nat \<Rightarrow> nat \<Rightarrow> worker"

function ramp_loop ::
  "(nat \<Rightarrow> nat \<Rightarrow> worker) \<Rightarrow> Query \<Rightarrow> int \<Rightarrow> int \<Rightarrow> ExecStats \<Rightarrow> QueryExecInfo list
     \<Rightarrow> ExecStats \<times> QueryExecInfo list" where
  "ramp_loop rmp query iter n stats saved =
     (if iter < 4 then
        (let n' = wrap64 (n * 2);
             ch = RunMany n' (rmp (nat iter));
             stats' = merge_step ch
         in ramp_loop rmp query (iter + 1) n' stats' (saved @ [ToExecInfo stats' (SQL query) n']))
      else (stats, saved))"
  by pat_completeness auto
termination
  by (relation "measure (\<lambda>(rmp, query, iter, n, stats, saved). nat (4 - iter))") auto

declare ramp_loop.simps [simp del]

definition Run :: "world \<Rightarrow> Query \<Rightarrow> ExecStats \<times> QueryExecInfo list" where
  "Run env query =
     (let stats = executeAndMeasure (baseline env);
          einfo = ToExecInfo stats (SQL query) 1
      in if IsFailed (ToExecInfo stats '''' 1)
         then (stats, [einfo])
         else ramp_loop (ramp env) query 0 25 stats [einfo])"

section \<open>The aggregation of StressQuery\<close>

text \<open>
  The receiving loop of \<open>StressQuery\<close> and the update that follows it. Its \<open>ExecStats\<close> has no
  \<open>Error\<close> field; the field is carried along unchanged here. \<open>None\<close> is the \<open>break\<close> taken
  when no execution was counted.
\<close>

fun stress_collect :: "ExecStats list \<Rightarrow> Duration \<times> int \<Rightarrow> Duration \<times> int" where
  "stress_collect [] acc = acc"
| "stress_collect (st # ch) (tsum, cnt) =
     stress_collect ch (wrap64 (tsum + wrap64 (Avg st * Count st)), wrap64 (cnt + Count st))"

definition stress_merge :: "ExecStats \<Rightarrow> ExecStats list \<Rightarrow> ExecStats option" where
  "stress_merge stats ch =
     (case stress_collect ch (0, 0) of
        (tsum, cnt) \<Rightarrow>
          if cnt = 0 then None else Some (stats\<lparr>Avg := quo tsum cnt, Count := cnt\<rparr>))"

section \<open>Describing a run\<close>

text \<open>
  The vocabulary of the properties below. \<open>completed evs\<close> lists the latencies of the
  executions that the loop records before it stops; \<open>failure evs\<close> is the execution error
  that makes the loop return, if there is one: an error that is neither the deadline nor a
  cancellation, met before the loop stops for another reason.
\<close>

fun completed :: "event list \<Rightarrow> Duration list" where
  "completed (ExecOk d # evs) = d # completed evs"
| "completed evs = []"

fun failure :: "event list \<Rightarrow> error option" where
  "failure (ExecOk d # evs) = failure evs"
| "failure (ExecErr err # evs) =
     (if errors_Is err DeadlineExceeded \<or> errors_Is err Canceled then None else Some err)"
| "failure evs = None"

text \<open>The statistics with which the loop ends, on either exit.\<close>

definition loop_stats :: "ExecStats + ExecStats \<times> Duration \<Rightarrow> ExecStats" where
  "loop_stats r = (case r of Inl s \<Rightarrow> s | Inr (s, t) \<Rightarrow> s)"

text \<open>
  The invariant of the data model: with no execution counted the average and the maximum are
  zero; otherwise the average lies between the minimum and the maximum.
\<close>

definition stats_invariant :: "ExecStats \<Rightarrow> bool" where
  "stats_invariant s =
     ((Count s = 0 \<longrightarrow> Avg s = 0 \<and> Max_d s = 0) \<and>
      (Count s > 0 \<longrightarrow> Min_d s \<le> Avg s \<and> Avg s \<le> Max_d s))"

text \<open>A sequence of worker counts that grows strictly and at least doubles at every step.\<close>

fun doubling :: "int list \<Rightarrow> bool" where
  "doubling (a # b # ns) = (a < b \<and> 2 * a \<le> b \<and> doubling (b # ns))"
| "doubling ns = True"

text \<open>\<open>strings.Contains\<close>: the second string occurs in the first as a contiguous piece.\<close>

definition strings_Contains :: "string \<Rightarrow> string \<Rightarrow> bool" where
  "strings_Contains s substr = sublist substr s"

section \<open>Example runs\<close>

definition query_select :: Query where
  "query_select = \<lparr>SQL = ''SELECT 1''\<rparr>"

text \<open>A worker whose connection attempt is refused.\<close>

definition worker_refused :: worker where
  "worker_refused = \<lparr>connect = Some (ErrorString ''connection refused''), events = []\<rparr>"

text \<open>A worker whose first execution runs into the deadline.\<close>

definition worker_late :: worker where
  "worker_late =
     \<lparr>connect = None,
      events = [ExecErr (WrapError ''timeout: context deadline exceeded'' DeadlineExceeded)]\<rparr>"

text \<open>A worker whose connection attempt is cut short by the cancellation of the context.\<close>

definition worker_cancelled :: worker where
  "worker_cancelled =
     \<lparr>connect = Some (WrapError ''failed to connect: context canceled'' Canceled),
      events = []\<rparr>"

text \<open>A worker that completes two executions of 2 s; the deadline falls into the third.\<close>

definition worker_slow :: worker where
  "worker_slow =
     \<lparr>connect = None,
      events = [ExecOk 2000000000, ExecOk 2000000000,
                ExecErr (WrapError ''timeout: context deadline exceeded'' DeadlineExceeded)]\<rparr>"

text \<open>A worker whose only execution takes two hours; then the context is done.\<close>

definition worker_long :: worker where
  "worker_long = \<lparr>connect = None, events = [ExecOk 7200000000000, CtxDone]\<rparr>"

text \<open>A worker that completes five executions of 80 to 100 ms before the deadline.\<close>

definition worker_steady :: worker where
  "worker_steady =
     \<lparr>connect = None,
      events = [ExecOk 80000000, ExecOk 85000000, ExecOk 90000000, ExecOk 95000000,
                ExecOk 100000000]\<rparr>"

text \<open>A worker whose second execution fails with a syntax error.\<close>

definition worker_failing :: worker where
  "worker_failing =
     \<lparr>connect = None, events = [ExecOk 5000000, ExecErr (ErrorString ''syntax error'')]\<rparr>"

definition world_refused :: world where
  "world_refused = \<lparr>baseline = worker_refused, ramp = (\<lambda>iter i. worker_steady)\<rparr>"

definition world_late :: world where
  "world_late = \<lparr>baseline = worker_late, ramp = (\<lambda>iter i. worker_steady)\<rparr>"

definition world_failing_ramp :: world where
  "world_failing_ramp = \<lparr>baseline = worker_steady, ramp = (\<lambda>iter i. worker_failing)\<rparr>"

section \<open>Arithmetic within range\<close>

lemma wrap64_id: "- (2 ^ 63) \<le> x \<Longrightarrow> x < 2 ^ 63 \<Longrightarrow> wrap64 x = x"
  by (simp add: wrap64_def)

lemma quo_nonneg: "0 \<le> a \<Longrightarrow> 0 < b \<Longrightarrow> a < 2 ^ 63 \<Longrightarrow> quo a b = a div b"
proof -
  assume a: "0 \<le> a" and b: "0 < b" and r: "a < 2 ^ 63"
  have d0: "0 \<le> a div b" using a b by (simp add: pos_imp_zdiv_nonneg_iff)
  have "a div b \<le> a div 1" using a b by (intro zdiv_mono2) simp_all
  hence "a div b \<le> a" by simp
  hence d1: "a div b < 2 ^ 63" using r by linarith
  have "sgn a * sgn b * (\<bar>a\<bar> div \<bar>b\<bar>) = a div b"
    using a b by (cases "a = 0") (simp_all add: sgn_if)
  thus ?thesis using d0 d1 by (simp add: quo_def wrap64_id)
qed

section \<open>The measuring loop\<close>

lemma measure_loop_Min:
  "Min_d (loop_stats (measure_loop evs s t)) = fold min (completed evs) (Min_d s)"
  by (induction evs s t rule: measure_loop.induct) (simp_all add: loop_stats_def min.commute)

lemma measure_loop_Max:
  "Max_d (loop_stats (measure_loop evs s t)) = fold max (completed evs) (Max_d s)"
  by (induction evs s t rule: measure_loop.induct) (simp_all add: loop_stats_def max.commute)

lemma measure_loop_Avg: "Avg (loop_stats (measure_loop evs s t)) = Avg s"
  by (induction evs s t rule: measure_loop.induct) (simp_all add: loop_stats_def)

lemma measure_loop_Error:
  "Error (loop_stats (measure_loop evs s t)) =
     (case failure evs of None \<Rightarrow> Error s | Some e \<Rightarrow> Some e)"
  by (induction evs s t rule: measure_loop.induct)
     (simp_all add: loop_stats_def split: option.splits)

lemma measure_loop_isl: "isl (measure_loop evs s t) \<longleftrightarrow> failure evs \<noteq> None"
  by (induction evs s t rule: measure_loop.induct) simp_all

lemma measure_loop_Count:
  "0 \<le> Count s \<Longrightarrow> Count s + int (length (completed evs)) < 2 ^ 63 \<Longrightarrow>
   Count (loop_stats (measure_loop evs s t)) = Count s + int (length (completed evs))"
proof (induction evs s t rule: measure_loop.induct)
  case (4 elapsed evs stats tsum)
  have w: "wrap64 (Count stats + 1) = Count stats + 1"
    using 4(2,3) by (intro wrap64_id) simp_all
  show ?case using 4 by (simp add: w)
qed (simp_all add: loop_stats_def)

lemma measure_loop_sum:
  "0 \<le> t \<Longrightarrow> \<forall>d\<in>set (completed evs). 0 \<le> d \<Longrightarrow> t + sum_list (completed evs) < 2 ^ 63 \<Longrightarrow>
   measure_loop evs s t = Inr (s', t') \<Longrightarrow> t' = t + sum_list (completed evs)"
proof (induction evs s t rule: measure_loop.induct)
  case (4 elapsed evs stats tsum)
  have nn: "0 \<le> sum_list (completed evs)" using 4(3) by (simp add: sum_list_nonneg)
  have e0: "0 \<le> elapsed" using 4(3) by simp
  have w: "wrap64 (tsum + elapsed) = tsum + elapsed"
    using 4(2,4) nn e0 by (intro wrap64_id) simp_all
  show ?case using 4 e0 by (simp add: w add.assoc)
qed (simp_all split: if_splits)

lemma executeAndMeasure_stats:
  assumes "connect w = None"
  shows "Min_d (executeAndMeasure w) =
           Min_d (loop_stats (measure_loop (events w)
             \<lparr>Min_d = Hour, Avg = 0, Max_d = 0, Count = 0, Error = None\<rparr> 0))"
    and "Max_d (executeAndMeasure w) =
           Max_d (loop_stats (measure_loop (events w)
             \<lparr>Min_d = Hour, Avg = 0, Max_d = 0, Count = 0, Error = None\<rparr> 0))"
    and "Count (executeAndMeasure w) =
           Count (loop_stats (measure_loop (events w)
             \<lparr>Min_d = Hour, Avg = 0, Max_d = 0, Count = 0, Error = None\<rparr> 0))"
    and "Error (executeAndMeasure w) =
           Error (loop_stats (measure_loop (events w)
             \<lparr>Min_d = Hour, Avg = 0, Max_d = 0, Count = 0, Error = None\<rparr> 0))"
  using assms
  by (simp_all add: executeAndMeasure_def loop_stats_def split: sum.splits prod.splits)

lemma fold_min_le: "fold min ds (m::int) \<le> m"
proof (induction ds arbitrary: m)
  case Nil
  show ?case by simp
next
  case (Cons a ds)
  have "fold min ds (min a m) \<le> min a m" by (rule Cons.IH)
  also have "min a m \<le> m" by simp
  finally show ?case by simp
qed

lemma fold_min_mem: "d \<in> set ds \<Longrightarrow> fold min ds (m::int) \<le> d"
proof (induction ds arbitrary: m)
  case Nil
  then show ?case by simp
next
  case (Cons a ds)
  show ?case
  proof (cases "d = a")
    case True
    have "fold min ds (min a m) \<le> min a m" by (rule fold_min_le)
    thus ?thesis using True by simp
  next
    case False
    thus ?thesis using Cons by simp
  qed
qed

lemma fold_min_above: "\<forall>d\<in>set ds. m \<le> d \<Longrightarrow> fold min ds (m::int) = m"
  by (induction ds arbitrary: m) (simp_all add: min_absorb2)

lemma fold_max_ge: "(m::int) \<le> fold max ds m"
proof (induction ds arbitrary: m)
  case Nil
  show ?case by simp
next
  case (Cons a ds)
  have "m \<le> max a m" by simp
  also have "max a m \<le> fold max ds (max a m)" by (rule Cons.IH)
  finally show ?case by simp
qed

lemma fold_max_mem: "d \<in> set ds \<Longrightarrow> d \<le> fold max ds (m::int)"
proof (induction ds arbitrary: m)
  case Nil
  then show ?case by simp
next
  case (Cons a ds)
  show ?case
  proof (cases "d = a")
    case True
    have "max a m \<le> fold max ds (max a m)" by (rule fold_max_ge)
    thus ?thesis using True by simp
  next
    case False
    thus ?thesis using Cons by simp
  qed
qed

section \<open>Properties of executeAndMeasure\<close>

text \<open>
  C3. The specification asks that, when a statement execution fails with an error that is
  neither a timeout nor a cancellation, \<open>executeAndMeasure\<close> return at once with
  \<open>Count = 0\<close> and \<open>Error\<close> set, the statistics gathered so far being discarded. The
  launcher's \<open>executeAndMeasure\<close> stores
  the error in the running \<open>stats\<close> and returns them: after one execution of 5 ms and a
  failing second one it returns \<open>Count = 1\<close>, \<open>Min = Max = 5 ms\<close>, \<open>Avg = 0\<close> and the error.
\<close>

theorem executeAndMeasure_error_keeps_count:
  "executeAndMeasure worker_failing
   = \<lparr>Min_d = 5000000, Avg = 0, Max_d = 5000000, Count = 1,
      Error = Some (ErrorString ''syntax error'')\<rparr>"
  by (simp add: executeAndMeasure_def worker_failing_def wrap64_def Hour_def Minute_def
        Second_def Millisecond_def Nanosecond_def)

text \<open>
  C7, as the specification states it: every run of \<open>executeAndMeasure\<close> that ends because
  the budget expired or the context was cancelled, with no other execution error, returns
  \<open>Error = nil\<close>. A cancellation that reaches \<open>pgx.Connect\<close> ends the run before the loop:
  the error of \<open>Connect\<close> is returned as it is, without the test for a deadline or a
  cancellation that the loop applies to the errors of \<open>conn.Exec\<close>. The run below has no
  execution error, its only error is a cancellation, and its \<open>Error\<close> is not \<open>nil\<close>.
\<close>

theorem executeAndMeasure_timeout_counterexample:
  "connect worker_cancelled = Some (WrapError ''failed to connect: context canceled'' Canceled) \<and>
   errors_Is (WrapError ''failed to connect: context canceled'' Canceled) Canceled \<and>
   failure (events worker_cancelled) = None \<and>
   executeAndMeasure worker_cancelled =
     \<lparr>Min_d = 0, Avg = 0, Max_d = 0, Count = 0,
      Error = Some (WrapError ''failed to connect: context canceled'' Canceled)\<rparr> \<and>
   Error (executeAndMeasure worker_cancelled) \<noteq> None"
  by (simp add: worker_cancelled_def executeAndMeasure_def ExecStats_zero_def)

text \<open>
  C7, amended. When the connection was established and the loop stops because the budget
  expired or the context was cancelled (\<open>ctx.Done()\<close> ready, or \<open>conn.Exec\<close> returning an
  error that is the deadline or a cancellation), with no other execution error before, then
  \<open>executeAndMeasure\<close> returns \<open>Error = nil\<close> and \<open>Count\<close> is the number of executions
  completed until then. If no execution completed, as when the very first one outlasts the
  budget, \<open>Count = 0\<close> and \<open>Avg = 0\<close>. The number of executions is taken to fit an \<open>int\<close>.
\<close>

theorem executeAndMeasure_timeout:
  assumes "connect w = None" and "failure (events w) = None"
    and "int (length (completed (events w))) < 2 ^ 63"
  shows "Error (executeAndMeasure w) = None \<and>
         Count (executeAndMeasure w) = int (length (completed (events w))) \<and>
         (completed (events w) = [] \<longrightarrow>
            Count (executeAndMeasure w) = 0 \<and> Avg (executeAndMeasure w) = 0)"
proof -
  let ?r = "measure_loop (events w) \<lparr>Min_d = Hour, Avg = 0, Max_d = 0, Count = 0, Error = None\<rparr> 0"
  have e: "Error (executeAndMeasure w) = None"
    using assms(1,2) by (simp add: executeAndMeasure_stats measure_loop_Error)
  have c: "Count (executeAndMeasure w) = int (length (completed (events w)))"
    using assms(1,3) by (simp add: executeAndMeasure_stats measure_loop_Count)
  have a: "Avg (executeAndMeasure w) = 0" if "completed (events w) = []"
  proof -
    have "Count (loop_stats ?r) = 0"
      using that by (simp add: measure_loop_Count)
    moreover have "Avg (loop_stats ?r) = 0"
      by (simp add: measure_loop_Avg)
    ultimately show ?thesis using assms(1)
      by (cases ?r) (auto simp add: executeAndMeasure_def loop_stats_def)
  qed
  show ?thesis using e c a by simp
qed

text \<open>
  Two runs: two executions of 2 s and then the deadline inside the third; and a first
  execution that runs into the deadline.
\<close>

theorem executeAndMeasure_timeout_witness:
  "connect worker_slow = None \<and>
   failure (events worker_slow) = None \<and>
   completed (events worker_slow) = [2000000000, 2000000000] \<and>
   Error (executeAndMeasure worker_slow) = None \<and>
   Count (executeAndMeasure worker_slow) = 2 \<and>
   connect worker_late = None \<and>
   failure (events worker_late) = None \<and>
   completed (events worker_late) = [] \<and>
   Error (executeAndMeasure worker_late) = None \<and>
   Count (executeAndMeasure worker_late) = 0 \<and>
   Avg (executeAndMeasure worker_late) = 0"
proof -
  have s1: "connect worker_slow = None" by (simp add: worker_slow_def)
  have s2: "failure (events worker_slow) = None" by (simp add: worker_slow_def)
  have s3: "completed (events worker_slow) = [2000000000, 2000000000]"
    by (simp add: worker_slow_def)
  have s4: "int (length (completed (events worker_slow))) < 2 ^ 63" by (simp add: s3)
  have l1: "connect worker_late = None" by (simp add: worker_late_def)
  have l2: "failure (events worker_late) = None" by (simp add: worker_late_def)
  have l3: "completed (events worker_late) = []" by (simp add: worker_late_def)
  have l4: "int (length (completed (events worker_late))) < 2 ^ 63" by (simp add: l3)
  show ?thesis
    using executeAndMeasure_timeout [OF s1 s2 s4] executeAndMeasure_timeout [OF l1 l2 l4]
      s1 s2 s3 l1 l2 l3
    by simp
qed

text \<open>
  C10. The initial \<open>Min\<close> of \<open>executeAndMeasure\<close> is \<open>time.Hour\<close>. On a run in which every
  recorded latency is longer than one hour the returned \<open>Min\<close> is one hour, below each of the
  latencies and so not their minimum.
\<close>

theorem executeAndMeasure_Min_sentinel:
  assumes "connect w = None" and "\<forall>d\<in>set (completed (events w)). Hour < d"
  shows "Min_d (executeAndMeasure w) = Hour \<and> Hour = 3600000000000 \<and>
         (\<forall>d\<in>set (completed (events w)). Min_d (executeAndMeasure w) < d)"
proof -
  have "\<forall>d\<in>set (completed (events w)). Hour \<le> d" using assms(2) by auto
  hence "fold min (completed (events w)) Hour = Hour" by (rule fold_min_above)
  hence "Min_d (executeAndMeasure w) = Hour"
    using assms(1) by (simp add: executeAndMeasure_stats measure_loop_Min)
  moreover have "Hour = 3600000000000"
    by (simp add: Hour_def Minute_def Second_def Millisecond_def Nanosecond_def)
  ultimately show ?thesis using assms(2) by simp
qed

text \<open>One execution of two hours, then the context is done: \<open>Min\<close> is one hour.\<close>

theorem executeAndMeasure_Min_sentinel_witness:
  "connect worker_long = None \<and>
   completed (events worker_long) = [7200000000000] \<and>
   Hour < 7200000000000 \<and>
   Min_d (executeAndMeasure worker_long) = 3600000000000 \<and>
   Min_d (executeAndMeasure worker_long) < 7200000000000"
proof -
  have c: "connect worker_long = None" by (simp add: worker_long_def)
  have l: "completed (events worker_long) = [7200000000000]" by (simp add: worker_long_def)
  have h: "Hour < 7200000000000"
    by (simp add: Hour_def Minute_def Second_def Millisecond_def Nanosecond_def)
  have a: "\<forall>d\<in>set (completed (events worker_long)). Hour < d" using h by (simp add: l)
  show ?thesis
    using executeAndMeasure_Min_sentinel [OF c a] c l h by simp
qed

subsection \<open>The invariant on runs without execution error\<close>

lemma sum_list_lower: "\<forall>d\<in>set ds. (m::int) \<le> d \<Longrightarrow> m * int (length ds) \<le> sum_list ds"
  by (induction ds) (simp_all add: algebra_simps)

lemma sum_list_upper: "\<forall>d\<in>set ds. d \<le> (m::int) \<Longrightarrow> sum_list ds \<le> m * int (length ds)"
  by (induction ds) (simp_all add: algebra_simps)

lemma mean_bounds:
  assumes "ds \<noteq> []" "\<forall>d\<in>set ds. (lo::int) \<le> d" "\<forall>d\<in>set ds. d \<le> hi"
  shows "lo \<le> sum_list ds div int (length ds)" and "sum_list ds div int (length ds) \<le> hi"
proof -
  have n: "0 < int (length ds)" using assms(1) by simp
  have "lo * int (length ds) \<le> sum_list ds" using assms(2) by (rule sum_list_lower)
  hence "lo * int (length ds) div int (length ds) \<le> sum_list ds div int (length ds)"
    using n by (intro zdiv_mono1) simp_all
  thus "lo \<le> sum_list ds div int (length ds)" using n by simp
  have "sum_list ds \<le> hi * int (length ds)" using assms(3) by (rule sum_list_upper)
  hence "sum_list ds div int (length ds) \<le> hi * int (length ds) div int (length ds)"
    using n by (intro zdiv_mono1) simp_all
  thus "sum_list ds div int (length ds) \<le> hi" using n by simp
qed

lemma executeAndMeasure_connect_failed:
  "connect w = Some err \<Longrightarrow>
   executeAndMeasure w = \<lparr>Min_d = 0, Avg = 0, Max_d = 0, Count = 0, Error = Some err\<rparr>"
  by (simp add: executeAndMeasure_def ExecStats_zero_def)

lemma executeAndMeasure_invariant:
  assumes ok: "connect w \<noteq> None \<or> failure (events w) = None"
    and nn: "\<forall>d\<in>set (completed (events w)). 0 \<le> d"
    and sm: "sum_list (completed (events w)) < 2 ^ 63"
    and ln: "int (length (completed (events w))) < 2 ^ 63"
  shows "stats_invariant (executeAndMeasure w)"
proof (cases "connect w")
  case (Some err)
  thus ?thesis by (simp add: executeAndMeasure_connect_failed stats_invariant_def)
next
  case None
  let ?init = "\<lparr>Min_d = Hour, Avg = 0, Max_d = 0, Count = 0, Error = None\<rparr>"
  let ?cs = "completed (events w)"
  from None ok have nofail: "failure (events w) = None" by simp
  hence "\<not> isl (measure_loop (events w) ?init 0)" by (simp add: measure_loop_isl)
  then obtain s' t' where r: "measure_loop (events w) ?init 0 = Inr (s', t')"
    by (cases "measure_loop (events w) ?init 0") auto
  have s': "s' = loop_stats (measure_loop (events w) ?init 0)"
    by (simp add: r loop_stats_def)
  have cnt: "Count s' = int (length ?cs)"
    unfolding s' using ln by (simp add: measure_loop_Count)
  have mn: "Min_d s' = fold min ?cs Hour" unfolding s' by (simp add: measure_loop_Min)
  have mx: "Max_d s' = fold max ?cs 0" unfolding s' by (simp add: measure_loop_Max)
  have av: "Avg s' = 0" unfolding s' by (simp add: measure_loop_Avg)
  have t': "t' = sum_list ?cs"
    using measure_loop_sum [OF _ nn _ r] sm by simp
  show ?thesis
  proof (cases "?cs = []")
    case True
    hence "executeAndMeasure w = s'" using None r cnt by (simp add: executeAndMeasure_def)
    thus ?thesis using True cnt av mx by (simp add: stats_invariant_def)
  next
    case False
    hence pos: "0 < Count s'" using cnt by simp
    have t0: "0 \<le> t'" unfolding t' using nn by (simp add: sum_list_nonneg)
    have q: "quo t' (Count s') = sum_list ?cs div int (length ?cs)"
      using quo_nonneg [OF t0 pos] sm by (simp add: t' cnt)
    have res: "executeAndMeasure w = s'\<lparr>Avg := sum_list ?cs div int (length ?cs)\<rparr>"
      using None r pos q by (simp add: executeAndMeasure_def)
    have lo: "\<forall>d\<in>set ?cs. fold min ?cs Hour \<le> d" by (simp add: fold_min_mem)
    have hi: "\<forall>d\<in>set ?cs. d \<le> fold max ?cs 0" by (simp add: fold_max_mem)
    have "fold min ?cs Hour \<le> sum_list ?cs div int (length ?cs)"
      using False lo hi by (rule mean_bounds(1))
    moreover have "sum_list ?cs div int (length ?cs) \<le> fold max ?cs 0"
      using False lo hi by (rule mean_bounds(2))
    ultimately show ?thesis using pos by (simp add: res stats_invariant_def mn mx)
  qed
qed

section \<open>Properties of the aggregation\<close>

lemma collect_errors: "c_errors (collect ch c) = c_errors c @ List.map_filter Error ch"
  by (induction ch arbitrary: c) (simp_all add: Let_def map_filter_simps split: option.splits)

lemma collect_count:
  "0 \<le> c_count c \<Longrightarrow> c_count c + int (length ch) < 2 ^ 63 \<Longrightarrow>
   c_count (collect ch c) = c_count c + int (length (filter (\<lambda>st. 0 < Count st) ch))"
proof (induction ch arbitrary: c)
  case Nil
  show ?case by simp
next
  case (Cons st ch)
  have w: "wrap64 (c_count c + 1) = c_count c + 1"
    using Cons.prems by (intro wrap64_id) simp_all
  show ?case
    using Cons.prems by (simp add: Let_def w Cons.IH split: option.splits)
qed

lemma collect_sum_idle:
  "\<forall>st\<in>set ch. \<not> 0 < Count st \<Longrightarrow> c_sum (collect ch c) = c_sum c"
  by (induction ch arbitrary: c) (simp_all add: Let_def split: option.splits)

text \<open>
  Within the range of \<open>int\<close>, the \<open>Count\<close> of the aggregate is the number of workers that
  report a positive \<open>Count\<close>.
\<close>

lemma merge_step_Count:
  "int (length ch) < 2 ^ 63 \<Longrightarrow>
   Count (merge_step ch) = int (length (filter (\<lambda>st. 0 < Count st) ch))"
  by (simp add: merge_step_def Let_def collect_count)

lemma merge_step_idle:
  assumes "int (length ch) < 2 ^ 63" and "Count (merge_step ch) = 0"
  shows "Avg (merge_step ch) = 0"
proof -
  have "filter (\<lambda>st. 0 < Count st) ch = []"
    using assms by (simp add: merge_step_Count)
  hence idle: "\<forall>st\<in>set ch. \<not> 0 < Count st" by (simp add: filter_empty_conv)
  have "c_sum (collect ch \<lparr>c_errors = [], c_sts = [], c_sum = 0, c_count = 0\<rparr>) = 0"
    using collect_sum_idle [OF idle] by simp
  moreover have "c_count (collect ch \<lparr>c_errors = [], c_sts = [], c_sum = 0, c_count = 0\<rparr>) = 0"
    using assms by (simp add: merge_step_def Let_def)
  ultimately show ?thesis by (simp add: merge_step_def Let_def)
qed

lemma join_errors_None: "join_errors errs = None \<longleftrightarrow> errs = []"
  by (simp add: join_errors_def split: list.splits)

lemma Errorf_w_v_msg: "Error_msg (Errorf_w_v err e) = Error_msg err @ ''; '' @ Error_msg e"
  by (simp add: Errorf_w_v_def)

lemma sublist_chain: "sublist xs ys \<Longrightarrow> sublist ys zs \<Longrightarrow> sublist xs zs"
proof -
  assume "sublist xs ys" and "sublist ys zs"
  then obtain p1 s1 p2 s2 where "ys = p1 @ xs @ s1" and "zs = p2 @ ys @ s2"
    by (auto simp add: sublist_def)
  hence "zs = (p2 @ p1) @ xs @ (s1 @ s2)" by simp
  thus ?thesis unfolding sublist_def by blast
qed

text \<open>The message of the joined error holds the message of every error that was joined.\<close>

lemma foldl_Errorf_msg:
  "e \<in> set (e0 # rest) \<Longrightarrow> sublist (Error_msg e) (Error_msg (foldl Errorf_w_v e0 rest))"
proof (induction rest arbitrary: e0 e)
  case Nil
  then show ?case by simp
next
  case (Cons x rest)
  have step: "sublist (Error_msg (Errorf_w_v e0 x))
                (Error_msg (foldl Errorf_w_v (Errorf_w_v e0 x) rest))"
    by (rule Cons.IH) simp
  consider "e = e0" | "e = x" | "e \<in> set rest" using Cons.prems by auto
  then show ?case
  proof cases
    case 1
    have "sublist (Error_msg e) (Error_msg (Errorf_w_v e0 x))"
      unfolding Errorf_w_v_msg 1 by (rule sublist_append_rightI)
    thus ?thesis using step by (auto intro: sublist_chain)
  next
    case 2
    have "sublist (Error_msg e) (Error_msg e0 @ ''; '' @ Error_msg x)"
      unfolding 2 using sublist_append_leftI [of "Error_msg x" "Error_msg e0 @ ''; ''"] by simp
    hence "sublist (Error_msg e) (Error_msg (Errorf_w_v e0 x))"
      by (simp only: Errorf_w_v_msg)
    thus ?thesis using step by (auto intro: sublist_chain)
  next
    case 3
    hence "e \<in> set (Errorf_w_v e0 x # rest)" by simp
    hence "sublist (Error_msg e) (Error_msg (foldl Errorf_w_v (Errorf_w_v e0 x) rest))"
      by (rule Cons.IH)
    thus ?thesis by simp
  qed
qed

lemma merge_step_Error: "Error (merge_step ch) = join_errors (List.map_filter Error ch)"
  by (simp add: merge_step_def Let_def collect_errors)

lemma map_filter_Error_mem:
  "e \<in> set (List.map_filter Error ch) \<longleftrightarrow> (\<exists>st\<in>set ch. Error st = Some e)"
  by (induction ch) (auto simp add: map_filter_simps split: option.splits)

lemma map_filter_Error_Nil:
  "List.map_filter Error ch = [] \<longleftrightarrow> (\<forall>st\<in>set ch. Error st = None)"
  by (induction ch) (auto simp add: map_filter_simps split: option.splits)

text \<open>
  C1. The specification asks that, when the counts of the merged workers add up to a positive
  number, the \<open>Avg\<close> that \<open>Launcher.Run\<close> computes for the step be the count-weighted mean
  of the workers' averages. The receiving loop of \<open>Launcher.Run\<close> adds the averages unweighted,
  counts workers, and divides the sum by that count twice. With 50 workers that each report
  \<open>Count = 5\<close> and \<open>Avg = 90 ms\<close> it computes \<open>Avg = 1.8 ms\<close>; the weighted mean, which the
  aggregation of \<open>StressQuery\<close> computes, is 90 ms.
\<close>

theorem merge_step_avg_fifty_workers:
  "executeAndMeasure worker_steady =
     \<lparr>Min_d = 80000000, Avg = 90000000, Max_d = 100000000, Count = 5, Error = None\<rparr> \<and>
   merge_step (RunMany 50 (\<lambda>i. worker_steady)) =
     \<lparr>Min_d = 0, Avg = 1800000, Max_d = 0, Count = 50, Error = None\<rparr> \<and>
   stress_merge (executeAndMeasure worker_steady) (RunMany 50 (\<lambda>i. worker_steady)) =
     Some \<lparr>Min_d = 80000000, Avg = 90000000, Max_d = 100000000, Count = 250, Error = None\<rparr>"
  by code_simp

text \<open>
  C2. The specification asks that the \<open>Count\<close> of a step be the sum of the workers'
  counts, so that 100 workers reporting \<open>Count = 5\<close> each give 500. The receiving loop of \<open>Launcher.Run\<close>
  increments its counter once per worker with a positive \<open>Count\<close>: for these 100 workers the
  step reports \<open>Count = 100\<close> (and \<open>Avg = 0.9 ms\<close>), where the aggregation of
  \<open>StressQuery\<close> reports 500.
\<close>

theorem merge_step_count_hundred_workers:
  "Count (executeAndMeasure worker_steady) = 5 \<and>
   Count (merge_step (RunMany 100 (\<lambda>i. worker_steady))) = 100 \<and>
   Avg (merge_step (RunMany 100 (\<lambda>i. worker_steady))) = 900000 \<and>
   map_option Count
     (stress_merge (executeAndMeasure worker_steady) (RunMany 100 (\<lambda>i. worker_steady))) =
     Some 500"
  by code_simp

text \<open>
  C6. For the workers' results merged in one ramp step: the combined \<open>Error\<close> is not \<open>nil\<close>
  exactly when the \<open>Error\<close> of some worker is not \<open>nil\<close>, and the message of the combined
  error contains the message of every worker's error.
\<close>

theorem merge_step_joins_errors:
  "(Error (merge_step ch) \<noteq> None \<longleftrightarrow> (\<exists>st\<in>set ch. Error st \<noteq> None)) \<and>
   (\<forall>st\<in>set ch. \<forall>e. Error st = Some e \<longrightarrow>
      (\<exists>joined. Error (merge_step ch) = Some joined \<and>
                strings_Contains (Error_msg joined) (Error_msg e)))"
proof (intro conjI ballI allI impI)
  have "List.map_filter Error ch \<noteq> [] \<longleftrightarrow> (\<exists>st\<in>set ch. Error st \<noteq> None)"
    by (simp add: map_filter_Error_Nil)
  thus "Error (merge_step ch) \<noteq> None \<longleftrightarrow> (\<exists>st\<in>set ch. Error st \<noteq> None)"
    by (simp add: merge_step_Error join_errors_None)
next
  fix st e
  assume st: "st \<in> set ch" and e: "Error st = Some e"
  hence mem: "e \<in> set (List.map_filter Error ch)"
    by (auto simp add: map_filter_Error_mem)
  then obtain e0 rest where er: "List.map_filter Error ch = e0 # rest"
    by (cases "List.map_filter Error ch") auto
  have "sublist (Error_msg e) (Error_msg (foldl Errorf_w_v e0 rest))"
    using mem unfolding er by (rule foldl_Errorf_msg)
  thus "\<exists>joined. Error (merge_step ch) = Some joined \<and>
                strings_Contains (Error_msg joined) (Error_msg e)"
    by (simp add: merge_step_Error join_errors_def er strings_Contains_def)
qed

text \<open>
  Three results in one step: a refused connection, a worker without error, and a syntax
  error. The joined message is \<open>connection refused; syntax error\<close>.
\<close>

theorem merge_step_joins_errors_witness:
  "Error (executeAndMeasure worker_refused) = Some (ErrorString ''connection refused'') \<and>
   Error (executeAndMeasure worker_failing) = Some (ErrorString ''syntax error'') \<and>
   Error (merge_step [executeAndMeasure worker_refused, executeAndMeasure worker_steady,
                      executeAndMeasure worker_failing]) =
     Some (WrapError ''connection refused; syntax error'' (ErrorString ''connection refused'')) \<and>
   strings_Contains ''connection refused; syntax error'' ''connection refused'' \<and>
   strings_Contains ''connection refused; syntax error'' ''syntax error''"
proof -
  let ?ch = "[executeAndMeasure worker_refused, executeAndMeasure worker_steady,
              executeAndMeasure worker_failing]"
  have e1: "Error (executeAndMeasure worker_refused) = Some (ErrorString ''connection refused'')"
    by code_simp
  have e2: "Error (executeAndMeasure worker_failing) = Some (ErrorString ''syntax error'')"
    by code_simp
  have j: "Error (merge_step ?ch) =
      Some (WrapError ''connection refused; syntax error'' (ErrorString ''connection refused''))"
    by code_simp
  have all: "\<forall>st\<in>set ?ch. \<forall>e. Error st = Some e \<longrightarrow>
      (\<exists>joined. Error (merge_step ?ch) = Some joined \<and>
                strings_Contains (Error_msg joined) (Error_msg e))"
    using merge_step_joins_errors [of ?ch] by blast
  have c1: "strings_Contains ''connection refused; syntax error'' ''connection refused''"
    using all e1 j by fastforce
  have c2: "strings_Contains ''connection refused; syntax error'' ''syntax error''"
    using all e2 j by fastforce
  show ?thesis using e1 e2 j c1 c2 by simp
qed

text \<open>
  C9, as the specification states it: every \<open>ExecStats\<close> that a worker or the aggregation
  of a step produces satisfies the invariant of the data model. The aggregate of a step is built from
  \<open>Count\<close>, \<open>Avg\<close> and \<open>Error\<close> alone, so its \<open>Max\<close> is zero: for 50 workers with one
  execution of 90 ms each it has \<open>Count = 50\<close> and an \<open>Avg\<close> above its \<open>Max\<close>.
\<close>

theorem ExecStats_invariant_counterexample:
  "\<not> stats_invariant
       (merge_step (RunMany 50 (\<lambda>i. \<lparr>connect = None, events = [ExecOk 90000000]\<rparr>)))"
  by code_simp

text \<open>
  C9, amended. The \<open>ExecStats\<close> that \<open>executeAndMeasure\<close> returns satisfies the invariant on
  every run that ends with a failed connection, with the budget expired or with a
  cancellation, that is, on every run not ended by an execution error; the latencies are
  taken non-negative and their sum and number within the range of \<open>int64\<close>. The aggregate of
  a ramp step has \<open>Min = 0\<close> and \<open>Max = 0\<close>, and \<open>Avg = 0\<close> when its \<open>Count\<close> is zero.
\<close>

theorem ExecStats_invariant_by_design:
  assumes "connect w \<noteq> None \<or> failure (events w) = None"
    and "\<forall>d\<in>set (completed (events w)). 0 \<le> d"
    and "sum_list (completed (events w)) < 2 ^ 63"
    and "int (length (completed (events w))) < 2 ^ 63"
    and "int (length ch) < 2 ^ 63"
  shows "stats_invariant (executeAndMeasure w) \<and>
         Min_d (merge_step ch) = 0 \<and> Max_d (merge_step ch) = 0 \<and>
         (Count (merge_step ch) = 0 \<longrightarrow> Avg (merge_step ch) = 0)"
proof -
  have "stats_invariant (executeAndMeasure w)"
    using assms(1-4) by (rule executeAndMeasure_invariant)
  moreover have "Min_d (merge_step ch) = 0" "Max_d (merge_step ch) = 0"
    by (simp_all add: merge_step_def Let_def)
  moreover have "Count (merge_step ch) = 0 \<longrightarrow> Avg (merge_step ch) = 0"
    using assms(5) by (simp add: merge_step_idle)
  ultimately show ?thesis by simp
qed

text \<open>
  A worker with five executions between 80 and 100 ms, and a step whose only worker ran
  into the deadline.
\<close>

theorem ExecStats_invariant_by_design_witness:
  "failure (events worker_steady) = None \<and>
   completed (events worker_steady) = [80000000, 85000000, 90000000, 95000000, 100000000] \<and>
   Count (executeAndMeasure worker_steady) = 5 \<and>
   Min_d (executeAndMeasure worker_steady) \<le> Avg (executeAndMeasure worker_steady) \<and>
   Avg (executeAndMeasure worker_steady) \<le> Max_d (executeAndMeasure worker_steady) \<and>
   Count (merge_step [executeAndMeasure worker_late]) = 0 \<and>
   Avg (merge_step [executeAndMeasure worker_late]) = 0 \<and>
   Max_d (merge_step [executeAndMeasure worker_late]) = 0"
proof -
  have f: "failure (events worker_steady) = None" by code_simp
  have c: "completed (events worker_steady) = [80000000, 85000000, 90000000, 95000000, 100000000]"
    by code_simp
  have n: "Count (executeAndMeasure worker_steady) = 5" by code_simp
  have z: "Count (merge_step [executeAndMeasure worker_late]) = 0" by code_simp
  have h1: "connect worker_steady \<noteq> None \<or> failure (events worker_steady) = None"
    using f by simp
  have h2: "\<forall>d\<in>set (completed (events worker_steady)). 0 \<le> d" by (simp add: c)
  have h3: "sum_list (completed (events worker_steady)) < 2 ^ 63" by (simp add: c)
  have h4: "int (length (completed (events worker_steady))) < 2 ^ 63" by (simp add: c)
  have h5: "int (length [executeAndMeasure worker_late]) < 2 ^ 63" by simp
  show ?thesis
    using ExecStats_invariant_by_design [OF h1 h2 h3 h4 h5] f c n z
    by (simp add: stats_invariant_def)
qed

section \<open>Properties of Launcher.Run\<close>

text \<open>The four iterations of the ramp loop, unfolded.\<close>

lemma ramp_loop_unfold:
  "ramp_loop rmp query 0 25 stats saved =
     (merge_step (RunMany 400 (rmp 3)),
      saved @ [ToExecInfo (merge_step (RunMany 50 (rmp 0))) (SQL query) 50,
               ToExecInfo (merge_step (RunMany 100 (rmp 1))) (SQL query) 100,
               ToExecInfo (merge_step (RunMany 200 (rmp 2))) (SQL query) 200,
               ToExecInfo (merge_step (RunMany 400 (rmp 3))) (SQL query) 400])"
proof -
  have w: "wrap64 50 = 50" "wrap64 100 = 100" "wrap64 200 = 200" "wrap64 400 = 400"
    by (simp_all add: wrap64_def)
  have s4: "ramp_loop rmp query 4 n s sv = (s, sv)" for n s sv
    by (simp add: ramp_loop.simps [of rmp query 4])
  have s3: "ramp_loop rmp query 3 200 s sv =
      (merge_step (RunMany 400 (rmp 3)),
       sv @ [ToExecInfo (merge_step (RunMany 400 (rmp 3))) (SQL query) 400])" for s sv
    by (simp add: ramp_loop.simps [of rmp query 3] w s4 Let_def)
  have s2: "ramp_loop rmp query 2 100 s sv =
      (merge_step (RunMany 400 (rmp 3)),
       sv @ [ToExecInfo (merge_step (RunMany 200 (rmp 2))) (SQL query) 200,
             ToExecInfo (merge_step (RunMany 400 (rmp 3))) (SQL query) 400])" for s sv
    by (simp add: ramp_loop.simps [of rmp query 2] w s3 Let_def)
  have s1: "ramp_loop rmp query 1 50 s sv =
      (merge_step (RunMany 400 (rmp 3)),
       sv @ [ToExecInfo (merge_step (RunMany 100 (rmp 1))) (SQL query) 100,
             ToExecInfo (merge_step (RunMany 200 (rmp 2))) (SQL query) 200,
             ToExecInfo (merge_step (RunMany 400 (rmp 3))) (SQL query) 400])" for s sv
    by (simp add: ramp_loop.simps [of rmp query 1] w s2 Let_def)
  show ?thesis
    by (simp add: ramp_loop.simps [of rmp query 0] w s1 Let_def)
qed

lemma IsFailed_ToExecInfo:
  "IsFailed (ToExecInfo s q n) \<longleftrightarrow> Error s \<noteq> None \<or> Count s = 0 \<or> Avg s = 0"
  by (simp add: ToExecInfo_def Let_def)

lemma Conns_ToExecInfo: "Conns (ToExecInfo s q n) = n"
  by (simp add: ToExecInfo_def Let_def)

lemma Info_ToExecInfo: "Info (ToExecInfo s q n) = s"
  by (simp add: ToExecInfo_def Let_def)

text \<open>The fan-out delivers one result per worker.\<close>

lemma length_RunMany: "length (RunMany n f) = nat n"
  by (simp add: RunMany_def)

text \<open>
  C4. When the baseline measurement carries an error or has \<open>Count = 0\<close>, \<open>Run\<close> returns
  the baseline statistics and the only record it hands on is the baseline's: no ramp step
  takes place.
\<close>

theorem Run_baseline_failed:
  assumes "Error (executeAndMeasure (baseline env)) \<noteq> None \<or>
           Count (executeAndMeasure (baseline env)) = 0"
  shows "Run env query =
           (executeAndMeasure (baseline env),
            [ToExecInfo (executeAndMeasure (baseline env)) (SQL query) 1]) \<and>
         length (snd (Run env query)) = 1"
  using assms by (auto simp add: Run_def Let_def IsFailed_ToExecInfo)

text \<open>A baseline whose connection is refused, and a baseline that runs into the deadline.\<close>

theorem Run_baseline_failed_witness:
  "Error (executeAndMeasure (baseline world_refused)) = Some (ErrorString ''connection refused'') \<and>
   Run world_refused query_select =
     (\<lparr>Min_d = 0, Avg = 0, Max_d = 0, Count = 0,
        Error = Some (ErrorString ''connection refused'')\<rparr>,
      [\<lparr>Query = ''SELECT 1'', IsFailed = True, Conns = 1,
         Comment = ''error: connection refused'',
         Info = \<lparr>Min_d = 0, Avg = 0, Max_d = 0, Count = 0,
                  Error = Some (ErrorString ''connection refused'')\<rparr>\<rparr>]) \<and>
   Count (executeAndMeasure (baseline world_late)) = 0 \<and>
   Run world_late query_select =
     (\<lparr>Min_d = 3600000000000, Avg = 0, Max_d = 0, Count = 0, Error = None\<rparr>,
      [\<lparr>Query = ''SELECT 1'', IsFailed = True, Conns = 1, Comment = ''timeout'',
         Info = \<lparr>Min_d = 3600000000000, Avg = 0, Max_d = 0, Count = 0, Error = None\<rparr>\<rparr>])"
proof -
  have r: "executeAndMeasure (baseline world_refused) =
      \<lparr>Min_d = 0, Avg = 0, Max_d = 0, Count = 0, Error = Some (ErrorString ''connection refused'')\<rparr>"
    by code_simp
  have l: "executeAndMeasure (baseline world_late) =
      \<lparr>Min_d = 3600000000000, Avg = 0, Max_d = 0, Count = 0, Error = None\<rparr>"
    by code_simp
  have h1: "Error (executeAndMeasure (baseline world_refused)) \<noteq> None \<or>
            Count (executeAndMeasure (baseline world_refused)) = 0"
    by (simp add: r)
  have h2: "Error (executeAndMeasure (baseline world_late)) \<noteq> None \<or>
            Count (executeAndMeasure (baseline world_late)) = 0"
    by (simp add: l)
  show ?thesis
    using Run_baseline_failed [OF h1, of query_select] Run_baseline_failed [OF h2, of query_select]
    by (simp add: r l ToExecInfo_def query_select_def)
qed

text \<open>
  C5. When the baseline is not a failure (no error, \<open>Count\<close> and \<open>Avg\<close> not zero), \<open>Run\<close>
  performs exactly four ramp steps, with 50, 100, 200 and 400 workers: a strictly increasing
  sequence in which every count is at least twice the one before. The record of each step
  carries the aggregate of that many workers.
\<close>

theorem Run_ramp_worker_counts:
  assumes "\<not> IsFailed (ToExecInfo (executeAndMeasure (baseline env)) '''' 1)"
  shows "length (tl (snd (Run env query))) = 4 \<and>
         map Conns (tl (snd (Run env query))) = [50, 100, 200, 400] \<and>
         doubling (map Conns (tl (snd (Run env query)))) \<and>
         map Info (tl (snd (Run env query))) =
           [merge_step (RunMany 50 (ramp env 0)), merge_step (RunMany 100 (ramp env 1)),
            merge_step (RunMany 200 (ramp env 2)), merge_step (RunMany 400 (ramp env 3))]"
  using assms
  by (simp add: Run_def Let_def ramp_loop_unfold Conns_ToExecInfo Info_ToExecInfo)

text \<open>A baseline with five executions, followed by ramp steps.\<close>

theorem Run_ramp_worker_counts_witness:
  "\<not> IsFailed (ToExecInfo (executeAndMeasure (baseline world_failing_ramp)) '''' 1) \<and>
   length (tl (snd (Run world_failing_ramp query_select))) = 4 \<and>
   map Conns (tl (snd (Run world_failing_ramp query_select))) = [50, 100, 200, 400]"
proof -
  have h: "\<not> IsFailed (ToExecInfo (executeAndMeasure (baseline world_failing_ramp)) '''' 1)"
    by code_simp
  show ?thesis
    using h Run_ramp_worker_counts [OF h, of query_select] by simp
qed

text \<open>
  C8. When the baseline is not a failure, all four ramp steps are carried out whatever the
  aggregate of each step is, every step hands on its own aggregate, and the value that \<open>Run\<close>
  returns is the aggregate of the fourth step.
\<close>

theorem Run_ramp_continues:
  assumes "\<not> IsFailed (ToExecInfo (executeAndMeasure (baseline env)) '''' 1)"
  shows "map Info (snd (Run env query)) =
           [executeAndMeasure (baseline env),
            merge_step (RunMany 50 (ramp env 0)),
            merge_step (RunMany 100 (ramp env 1)),
            merge_step (RunMany 200 (ramp env 2)),
            merge_step (RunMany 400 (ramp env 3))] \<and>
         fst (Run env query) = merge_step (RunMany 400 (ramp env 3))"
  using assms by (simp add: Run_def Let_def ramp_loop_unfold Info_ToExecInfo)

text \<open>
  Every worker of every ramp step fails with a syntax error: the first step is already a
  failure, and still five records are handed on and the fourth aggregate is returned.
\<close>

theorem Run_ramp_continues_witness:
  "\<not> IsFailed (ToExecInfo (executeAndMeasure (baseline world_failing_ramp)) '''' 1) \<and>
   IsFailed (ToExecInfo (merge_step (RunMany 50 (ramp world_failing_ramp 0))) '''' 50) \<and>
   length (snd (Run world_failing_ramp query_select)) = 5 \<and>
   fst (Run world_failing_ramp query_select) = merge_step (RunMany 400 (ramp world_failing_ramp 3))"
proof -
  have h: "\<not> IsFailed (ToExecInfo (executeAndMeasure (baseline world_failing_ramp)) '''' 1)"
    by code_simp
  have f: "IsFailed (ToExecInfo (merge_step (RunMany 50 (ramp world_failing_ramp 0))) '''' 50)"
    by code_simp
  have "length (map Info (snd (Run world_failing_ramp query_select))) = 5"
    using Run_ramp_continues [OF h, of query_select] by simp
  hence "length (snd (Run world_failing_ramp query_select)) = 5" by simp
  thus ?thesis
    using h f Run_ramp_continues [OF h, of query_select] by simp
qed

end
